theory Spec2Isabelle
  imports Main "HOL-Library.List_Lexorder" "HOL-Library.Char_ord"
begin

section \<open>Strings as Python uses them\<close>

text \<open>
  Python's \<^verbatim>\<open>str\<close> is modelled by \<^typ>\<open>string\<close>. The model covers ASCII names: the
  only cased characters are \<^verbatim>\<open>a-z\<close> and \<^verbatim>\<open>A-Z\<close>, every other character is left
  alone by \<^verbatim>\<open>lower()\<close> and \<^verbatim>\<open>title()\<close>. The order on strings is the lexicographic
  order on character codes, which is what \<^verbatim>\<open>sorted\<close> uses on \<^verbatim>\<open>str\<close>.
\<close>

definition is_lower :: "char \<Rightarrow> bool" where
  "is_lower c = (97 \<le> (of_char c :: nat) \<and> (of_char c :: nat) \<le> 122)"

definition is_upper :: "char \<Rightarrow> bool" where
  "is_upper c = (65 \<le> (of_char c :: nat) \<and> (of_char c :: nat) \<le> 90)"

definition is_cased :: "char \<Rightarrow> bool" where
  "is_cased c = (is_lower c \<or> is_upper c)"

definition to_lower :: "char \<Rightarrow> char" where
  "to_lower c = (if is_upper c then char_of ((of_char c :: nat) + 32) else c)"

definition to_upper :: "char \<Rightarrow> char" where
  "to_upper c = (if is_lower c then char_of ((of_char c :: nat) - 32) else c)"

text \<open>\<^verbatim>\<open>s.lower()\<close>\<close>

definition lower :: "string \<Rightarrow> string" where
  "lower s = map to_lower s"

text \<open>
  \<^verbatim>\<open>s.title()\<close>, as CPython computes it: one pass over the characters with the flag
  "the previous character was cased"; a character after a cased one is lower-cased,
  any other character is title-cased (upper-cased, in ASCII).
\<close>

fun do_title :: "bool \<Rightarrow> string \<Rightarrow> string" where
  "do_title previous_cased [] = []"
| "do_title previous_cased (c # cs) =
     (if previous_cased then to_lower c else to_upper c) # do_title (is_cased c) cs"

definition str_title :: "string \<Rightarrow> string" where
  "str_title s = do_title False s"

text \<open>\<^verbatim>\<open>s.replace(old, new)\<close> for a one-character \<^verbatim>\<open>old\<close>.\<close>

definition replace :: "char \<Rightarrow> string \<Rightarrow> string \<Rightarrow> string" where
  "replace old new s = concat (map (\<lambda>c. if c = old then new else [c]) s)"

text \<open>\<^verbatim>\<open>s.startswith(p)\<close> and \<^verbatim>\<open>s.endswith(p)\<close>\<close>

definition startswith :: "string \<Rightarrow> string \<Rightarrow> bool" where
  "startswith s p = (take (length p) s = p)"

definition endswith :: "string \<Rightarrow> string \<Rightarrow> bool" where
  "endswith s p = (length p \<le> length s \<and> drop (length s - length p) s = p)"

text \<open>\<^verbatim>\<open>sep.join(parts)\<close>\<close>

fun join :: "string \<Rightarrow> string list \<Rightarrow> string" where
  "join sep [] = []"
| "join sep [x] = x"
| "join sep (x # y # ys) = x @ sep @ join sep (y # ys)"

text \<open>\<^verbatim>\<open>s.split(sep)\<close> for a one-character separator.\<close>

fun split_acc :: "char \<Rightarrow> string \<Rightarrow> string \<Rightarrow> string list" where
  "split_acc sep cur [] = [rev cur]"
| "split_acc sep cur (c # cs) =
     (if c = sep then rev cur # split_acc sep [] cs else split_acc sep (c # cur) cs)"

definition split :: "char \<Rightarrow> string \<Rightarrow> string list" where
  "split sep s = split_acc sep [] s"

section \<open>Paths (\<^verbatim>\<open>posixpath\<close>)\<close>

text \<open>
  The host is taken to be POSIX: \<^verbatim>\<open>os.sep\<close> is \<^verbatim>\<open>/\<close>, so
  \<^verbatim>\<open>rel_path.replace(os.sep, '/')\<close> changes nothing there.
\<close>

definition os_sep :: char where
  "os_sep = CHR ''/''"

text \<open>\<^verbatim>\<open>os.path.join(a, b)\<close>\<close>

definition path_join :: "string \<Rightarrow> string \<Rightarrow> string" where
  "path_join a b =
     (if startswith b [os_sep] then b
      else if a = [] \<or> endswith a [os_sep] then a @ b
      else a @ [os_sep] @ b)"

text \<open>
  \<^verbatim>\<open>os.path.splitext(p)\<close>: the extension starts at the last dot of the last path
  component, unless only dots precede it there.
\<close>

fun rfind :: "char \<Rightarrow> string \<Rightarrow> int" where
  "rfind c [] = -1"
| "rfind c (x # xs) =
     (let r = rfind c xs in if r \<ge> 0 then r + 1 else if x = c then 0 else -1)"

definition splitext :: "string \<Rightarrow> string \<times> string" where
  "splitext p =
     (let sepIndex = rfind os_sep p;
          dotIndex = rfind (CHR ''.'') p
      in if dotIndex > sepIndex \<and>
            (\<exists>c \<in> set (take (nat (dotIndex - (sepIndex + 1))) (drop (nat (sepIndex + 1)) p)).
               c \<noteq> CHR ''.'')
         then (take (nat dotIndex) p, drop (nat dotIndex) p)
         else (p, []))"

text \<open>
  \<^verbatim>\<open>os.path.relpath(path, start)\<close> for relative, normalised arguments (what
  \<^verbatim>\<open>build_nav\<close> passes): the components after the common prefix, behind one
  \<^verbatim>\<open>..\<close> for each component of \<^verbatim>\<open>start\<close> outside that prefix.
\<close>

fun commonprefix :: "string list \<Rightarrow> string list \<Rightarrow> string list" where
  "commonprefix (x # xs) (y # ys) = (if x = y then x # commonprefix xs ys else [])"
| "commonprefix _ _ = []"

definition relpath :: "string \<Rightarrow> string \<Rightarrow> string" where
  "relpath path start =
     (let start_list = filter (\<lambda>x. x \<noteq> []) (split os_sep start);
          path_list = filter (\<lambda>x. x \<noteq> []) (split os_sep path);
          i = length (commonprefix start_list path_list);
          rel_list = replicate (length start_list - i) ''..'' @ drop i path_list
      in if rel_list = [] then ''.'' else join [os_sep] rel_list)"

section \<open>Titles\<close>

text \<open>\<^verbatim>\<open>generate_nav_and_index.format_title\<close>\<close>

definition format_title :: "string \<Rightarrow> string" where
  "format_title name = str_title (replace (CHR ''-'') '' '' (replace (CHR ''_'') '' '' name))"

text \<open>\<^verbatim>\<open>update_nav.title_case\<close>\<close>

definition title_case :: "string \<Rightarrow> string" where
  "title_case name = str_title (replace (CHR ''_'') '' '' (fst (splitext name)))"

section \<open>The file system and the documents\<close>

text \<open>
  What Python raises on the paths the two scripts take.
\<close>

datatype error =
    FileNotFoundError
  | NotADirectoryError
  | IsADirectoryError
  | FileExistsError
  | PermissionError
  | YAMLError
  | TypeError

text \<open>
  A node of the directory tree under \<^verbatim>\<open>docs\<close>: a file with its content, a directory
  with its entries (name and node, in the order \<^verbatim>\<open>os.listdir\<close> happens to return
  them), or a directory that \<^verbatim>\<open>os.listdir\<close> is not allowed to read.
\<close>

datatype fsnode =
    File string
  | Dir "(string \<times> fsnode) list"
  | NoAccess

text \<open>\<^verbatim>\<open>os.path.isdir\<close> on the path of a node.\<close>

fun isdir :: "fsnode \<Rightarrow> bool" where
  "isdir (File content) = False"
| "isdir (Dir entries) = True"
| "isdir NoAccess = True"

text \<open>
  The values \<^verbatim>\<open>yaml.safe_load\<close> returns and \<^verbatim>\<open>yaml.dump\<close> takes: a \<^verbatim>\<open>dict\<close> is an
  association list in insertion order, with string keys. The navigation the scripts
  build is such a value: a list of one-key dicts.
\<close>

datatype yaml =
    YNull
  | YBool bool
  | YInt int
  | YStr string
  | YList "yaml list"
  | YMap "(string \<times> yaml) list"

text \<open>Python's truth value of a loaded document, as \<^verbatim>\<open>or\<close> tests it.\<close>

fun truthy :: "yaml \<Rightarrow> bool" where
  "truthy YNull = False"
| "truthy (YBool b) = b"
| "truthy (YInt i) = (i \<noteq> 0)"
| "truthy (YStr s) = (s \<noteq> [])"
| "truthy (YList xs) = (xs \<noteq> [])"
| "truthy (YMap kvs) = (kvs \<noteq> [])"

text \<open>
  \<^verbatim>\<open>d[k] = v\<close> on a \<^verbatim>\<open>dict\<close>: an existing key keeps its place, a new key goes last.
\<close>

fun dict_set :: "'k \<Rightarrow> 'v \<Rightarrow> ('k \<times> 'v) list \<Rightarrow> ('k \<times> 'v) list" where
  "dict_set k v [] = [(k, v)]"
| "dict_set k v ((k', v') # kvs) =
     (if k' = k then (k, v) # kvs else (k', v') # dict_set k v kvs)"

text \<open>
  \<^verbatim>\<open>config[k] = v\<close> on a loaded document: only a mapping takes a string key; a list,
  a scalar and \<^verbatim>\<open>None\<close> raise \<^verbatim>\<open>TypeError\<close>.
\<close>

fun setitem :: "yaml \<Rightarrow> string \<Rightarrow> yaml \<Rightarrow> error + yaml" where
  "setitem (YMap kvs) k v = Inr (YMap (dict_set k v kvs))"
| "setitem config k v = Inl TypeError"

text \<open>
  The index links of \<^verbatim>\<open>scan_docs\<close> are tuples \<^verbatim>\<open>(title, link)\<close> where \<^verbatim>\<open>link\<close> is a
  path (\<open>Entry\<close>) or a list of such tuples (\<open>Section\<close>); \<^verbatim>\<open>isinstance(link, list)\<close>
  tells them apart.
\<close>

datatype index_link =
    Entry string string
  | Section string "index_link list"

text \<open>
  The state the scripts run in: the \<^verbatim>\<open>docs\<close> directory (if it exists), the bytes of
  \<^verbatim>\<open>mkdocs.yml\<close> (if it exists), and whether opening \<^verbatim>\<open>mkdocs.yml\<close> and
  \<^verbatim>\<open>docs/index.md\<close> for writing is permitted. The YAML library is a parameter: a
  parser \<open>safe_load\<close> from bytes to a document or an error, and a printer \<open>dump\<close>.
  A write either fails at \<^verbatim>\<open>open\<close>, leaving the file as it was, or stores the whole
  content.
\<close>

record 'b state =
  docs :: "fsnode option"
  mkdocs_yml :: "'b option"
  mkdocs_writable :: bool
  index_writable :: bool

definition DOCS_DIR :: string where
  "DOCS_DIR = ''docs''"

section \<open>\<^verbatim>\<open>generate_nav_and_index.py\<close>\<close>

text \<open>
  \<^verbatim>\<open>scan_docs(dir_path, base)\<close>. The directory at \<^verbatim>\<open>dir_path\<close> is passed as its node;
  \<open>scan_items\<close> is the \<^verbatim>\<open>for\<close> loop over the sorted listing, with \<^verbatim>\<open>nav\<close> and
  \<^verbatim>\<open>index_links\<close> as its state.
\<close>

function scan_docs :: "fsnode \<Rightarrow> string \<Rightarrow> error + (yaml list \<times> index_link list)"
  and scan_items :: "(string \<times> fsnode) list \<Rightarrow> string \<Rightarrow> yaml list \<times> index_link list
                      \<Rightarrow> error + (yaml list \<times> index_link list)" where
  "scan_docs (Dir entries) base = scan_items (sort_key fst entries) base ([], [])"
| "scan_docs NoAccess base = Inl PermissionError"
| "scan_docs (File content) base = Inl NotADirectoryError"
| "scan_items [] base (nav, index_links) = Inr (nav, index_links)"
| "scan_items ((item, node) # rest) base (nav, index_links) =
     (let rel_path = path_join base item in
      if startswith item ''.'' \<or> startswith item ''_'' then
        scan_items rest base (nav, index_links)
      else if isdir node then
        (case scan_docs node rel_path of
           Inl e \<Rightarrow> Inl e
         | Inr (sub_nav, sub_index) \<Rightarrow>
             (let title = format_title item in
              scan_items rest base
                (nav @ [YMap [(title, YList sub_nav)]],
                 index_links @ [Section title sub_index])))
      else if endswith item ''.md'' \<and> lower item \<noteq> ''index.md'' then
        (let title = format_title (fst (splitext item));
             file_path = replace os_sep ''/'' rel_path
         in scan_items rest base
              (nav @ [YMap [(title, YStr file_path)]],
               index_links @ [Entry title file_path]))
      else scan_items rest base (nav, index_links))"
  by pat_completeness auto
termination
proof -
  have ins: "size_list f (insort_key k x xs) = Suc (f x + size_list f xs)"
    for f :: "'a \<Rightarrow> nat" and k :: "'a \<Rightarrow> string" and x xs
    by (induction xs) auto
  have srt: "size_list f (sort_key k xs) = size_list f xs"
    for f :: "'a \<Rightarrow> nat" and k :: "'a \<Rightarrow> string" and xs
    by (induction xs) (auto simp: ins)
  show ?thesis
    by (relation "measure (\<lambda>x. case x of
            Inl (node, base) \<Rightarrow> 2 * size node
          | Inr (es, base, acc) \<Rightarrow> 2 * size_list (size_prod (\<lambda>_. 0) size) es + 1)")
       (auto simp: srt)
qed

text \<open>\<^verbatim>\<open>generate_index_md(index_links, level)\<close>; \<open>render_links\<close> returns the lines it appends.\<close>

definition nl :: char where
  "nl = CHR 0x0A"

fun render_links :: "index_link list \<Rightarrow> nat \<Rightarrow> string list" where
  "render_links [] indent_level = []"
| "render_links (Section title link # links) indent_level =
     ([nl] @ replicate indent_level (CHR ''#'') @ '' '' @ title @ [nl])
       # render_links link (indent_level + 1) @ render_links links indent_level"
| "render_links (Entry title link # links) indent_level =
     (''- ['' @ title @ '']('' @ link @ '')'') # render_links links indent_level"

definition generate_index_md :: "index_link list \<Rightarrow> nat \<Rightarrow> string" where
  "generate_index_md index_links level =
     join [nl] ((''# Documentation Index'' @ [nl]) # render_links index_links level)"

text \<open>
  \<^verbatim>\<open>update_mkdocs_yml(nav)\<close>. The result is the exception raised, if any, and the
  state left behind.
\<close>

definition update_mkdocs_yml ::
  "('b \<Rightarrow> error + yaml) \<Rightarrow> (yaml \<Rightarrow> 'b) \<Rightarrow> yaml list \<Rightarrow> 'b state \<Rightarrow> error option \<times> 'b state" where
  "update_mkdocs_yml safe_load dump nav s =
     (case (case mkdocs_yml s of
              Some bytes \<Rightarrow>
                (case safe_load bytes of
                   Inl e \<Rightarrow> Inl e
                 | Inr loaded \<Rightarrow> Inr (if truthy loaded then loaded else YMap []))
            | None \<Rightarrow> Inr (YMap [])) of
        Inl e \<Rightarrow> (Some e, s)
      | Inr config \<Rightarrow>
          (case setitem config ''nav'' (YList nav) of
             Inl e \<Rightarrow> (Some e, s)
           | Inr config' \<Rightarrow>
               if mkdocs_writable s then (None, s\<lparr>mkdocs_yml := Some (dump config')\<rparr>)
               else (Some PermissionError, s)))"

text \<open>
  Writing \<^verbatim>\<open>docs/index.md\<close>: \<^verbatim>\<open>open(INDEX_FILE, 'w')\<close> and \<^verbatim>\<open>f.write\<close>.
  \<^verbatim>\<open>os.makedirs(DOCS_DIR, exist_ok=True)\<close> creates \<^verbatim>\<open>docs\<close> if it is missing and raises
  \<^verbatim>\<open>FileExistsError\<close> if \<^verbatim>\<open>docs\<close> is a file; opening a directory for writing raises
  \<^verbatim>\<open>IsADirectoryError\<close>.
\<close>

definition write_index :: "string \<Rightarrow> 'b state \<Rightarrow> error option \<times> 'b state" where
  "write_index index_content s =
     (case (case docs s of None \<Rightarrow> Dir [] | Some d \<Rightarrow> d) of
        Dir entries \<Rightarrow>
          (case map_of entries ''index.md'' of
             Some (Dir sub) \<Rightarrow> (Some IsADirectoryError, s)
           | Some NoAccess \<Rightarrow> (Some IsADirectoryError, s)
           | _ \<Rightarrow>
               if index_writable s
               then (None, s\<lparr>docs := Some (Dir (dict_set ''index.md'' (File index_content) entries))\<rparr>)
               else (Some PermissionError, s))
      | NoAccess \<Rightarrow> (Some PermissionError, s)
      | File content \<Rightarrow> (Some FileExistsError, s))"

text \<open>\<^verbatim>\<open>main()\<close>; \<^verbatim>\<open>os.listdir\<close> of a missing \<^verbatim>\<open>docs\<close> raises \<^verbatim>\<open>FileNotFoundError\<close>.\<close>

definition main ::
  "('b \<Rightarrow> error + yaml) \<Rightarrow> (yaml \<Rightarrow> 'b) \<Rightarrow> 'b state \<Rightarrow> error option \<times> 'b state" where
  "main safe_load dump s =
     (case (case docs s of None \<Rightarrow> Inl FileNotFoundError | Some d \<Rightarrow> scan_docs d []) of
        Inl e \<Rightarrow> (Some e, s)
      | Inr (nav, index_links) \<Rightarrow>
          (case update_mkdocs_yml safe_load dump nav s of
             (Some e, s1) \<Rightarrow> (Some e, s1)
           | (None, s1) \<Rightarrow> write_index (generate_index_md index_links 2) s1))"

section \<open>\<^verbatim>\<open>update_nav.py\<close>\<close>

text \<open>
  \<^verbatim>\<open>build_nav(path)\<close>: the node at \<^verbatim>\<open>path\<close> is passed beside the path string;
  \<open>build_items\<close> is the loop over the sorted entries.
\<close>

function build_nav :: "fsnode \<Rightarrow> string \<Rightarrow> error + yaml list"
  and build_items :: "(string \<times> fsnode) list \<Rightarrow> string \<Rightarrow> yaml list \<Rightarrow> error + yaml list" where
  "build_nav (Dir entries) path = build_items (sort_key fst entries) path []"
| "build_nav NoAccess path = Inl PermissionError"
| "build_nav (File content) path = Inl NotADirectoryError"
| "build_items [] path nav = Inr nav"
| "build_items ((entry, node) # rest) path nav =
     (let full_path = path_join path entry;
          rel_path = relpath full_path DOCS_DIR
      in if isdir node then
           (case build_nav node full_path of
              Inl e \<Rightarrow> Inl e
            | Inr children \<Rightarrow>
                if children \<noteq> []
                then build_items rest path
                       (nav @ [YMap [(str_title (replace (CHR ''_'') '' '' entry), YList children)]])
                else build_items rest path nav)
         else if endswith entry ''.md'' then
           build_items rest path
             (nav @ [YMap [(title_case entry, YStr (replace (CHR 0x5C) ''/'' rel_path))]])
         else build_items rest path nav)"
  by pat_completeness auto
termination
proof -
  have ins: "size_list f (insort_key k x xs) = Suc (f x + size_list f xs)"
    for f :: "'a \<Rightarrow> nat" and k :: "'a \<Rightarrow> string" and x xs
    by (induction xs) auto
  have srt: "size_list f (sort_key k xs) = size_list f xs"
    for f :: "'a \<Rightarrow> nat" and k :: "'a \<Rightarrow> string" and xs
    by (induction xs) (auto simp: ins)
  show ?thesis
    by (relation "measure (\<lambda>x. case x of
            Inl (node, path) \<Rightarrow> 2 * size node
          | Inr (es, path, nav) \<Rightarrow> 2 * size_list (size_prod (\<lambda>_. 0) size) es + 1)")
       (auto simp: srt)
qed

text \<open>\<^verbatim>\<open>update_mkdocs_yaml()\<close>\<close>

definition update_mkdocs_yaml ::
  "('b \<Rightarrow> error + yaml) \<Rightarrow> (yaml \<Rightarrow> 'b) \<Rightarrow> 'b state \<Rightarrow> error option \<times> 'b state" where
  "update_mkdocs_yaml safe_load dump s =
     (case mkdocs_yml s of
        None \<Rightarrow> (Some FileNotFoundError, s)
      | Some bytes \<Rightarrow>
          (case safe_load bytes of
             Inl e \<Rightarrow> (Some e, s)
           | Inr config \<Rightarrow>
               (case (case docs s of None \<Rightarrow> Inl FileNotFoundError
                                   | Some d \<Rightarrow> build_nav d DOCS_DIR) of
                  Inl e \<Rightarrow> (Some e, s)
                | Inr nav \<Rightarrow>
                    (case setitem config ''nav'' (YList nav) of
                       Inl e \<Rightarrow> (Some e, s)
                     | Inr config' \<Rightarrow>
                         if mkdocs_writable s
                         then (None, s\<lparr>mkdocs_yml := Some (dump config')\<rparr>)
                         else (Some PermissionError, s)))))"

section \<open>Notions of the specification\<close>




text \<open>
  The entries the specification calls hidden, and a directory tree with the hidden
  entries taken out at every depth.
\<close>

definition hidden :: "string \<Rightarrow> bool" where
  "hidden name = (startswith name ''.'' \<or> startswith name ''_'')"

fun remove_hidden :: "fsnode \<Rightarrow> fsnode" where
  "remove_hidden (Dir entries) =
     Dir (map (\<lambda>(name, node). (name, remove_hidden node))
            (filter (\<lambda>(name, node). \<not> hidden name) entries))"
| "remove_hidden (File content) = File content"
| "remove_hidden NoAccess = NoAccess"

text \<open>
  A navigation value in which no list is empty, at any depth: every group has a child.
\<close>

fun nonempty_groups :: "yaml \<Rightarrow> bool" where
  "nonempty_groups (YList xs) = (xs \<noteq> [] \<and> list_all nonempty_groups xs)"
| "nonempty_groups (YMap kvs) = list_all (\<lambda>(k, v). nonempty_groups v) kvs"
| "nonempty_groups v = True"

text \<open>
  The entries the loop of \<^verbatim>\<open>scan_docs\<close> passes over: the hidden ones, and the files that
  are not documents or are named like the index.
\<close>

definition passed_over :: "string \<times> fsnode \<Rightarrow> bool" where
  "passed_over e =
     (case e of (item, node) \<Rightarrow>
        hidden item \<or> (\<not> isdir node \<and> \<not> (endswith item ''.md'' \<and> lower item \<noteq> ''index.md'')))"

section \<open>Dictionaries\<close>

lemma map_of_dict_set_same: "map_of (dict_set k v kvs) k = Some v"
  by (induction kvs) auto



lemma dict_set_idem: "dict_set k v (dict_set k v kvs) = dict_set k v kvs"
  by (induction kvs) auto


section \<open>The configuration file\<close>

text \<open>
  C10. In \<^verbatim>\<open>generate_nav_and_index.py\<close>, when \<^verbatim>\<open>mkdocs.yml\<close> exists and parses to the
  empty document (\<^verbatim>\<open>safe_load\<close> returns \<^verbatim>\<open>None\<close>), \<^verbatim>\<open>update_mkdocs_yml\<close> goes on from
  an empty mapping: it raises nothing and writes the dump of a mapping whose only key
  is \<^verbatim>\<open>nav\<close>, holding the navigation it was given.
\<close>

theorem update_mkdocs_yml_null_document:
  assumes "mkdocs_yml s = Some bytes" and "safe_load bytes = Inr YNull" and "mkdocs_writable s"
  shows "update_mkdocs_yml safe_load dump nav s =
           (None, s\<lparr>mkdocs_yml := Some (dump (YMap [(''nav'', YList nav)]))\<rparr>)"
  using assms by (simp add: update_mkdocs_yml_def)

theorem update_mkdocs_yml_null_document_witness:
  "update_mkdocs_yml (\<lambda>b. if b = [] then Inr YNull else Inl YAMLError) (\<lambda>d. ''dumped'')
     [YMap [(''A'', YStr ''a.md'')]]
     \<lparr>docs = None, mkdocs_yml = Some [], mkdocs_writable = True, index_writable = True\<rparr> =
   (None, \<lparr>docs = None, mkdocs_yml = Some ''dumped'', mkdocs_writable = True,
           index_writable = True\<rparr>)"
  using update_mkdocs_yml_null_document
    [of "\<lparr>docs = None, mkdocs_yml = Some [], mkdocs_writable = True, index_writable = True\<rparr>"
        "[]" "\<lambda>b. if b = [] then Inr YNull else Inl YAMLError" "\<lambda>d. ''dumped''"
        "[YMap [(''A'', YStr ''a.md'')]]"]
  by simp

text \<open>
  C7, as the code has it. In \<^verbatim>\<open>generate_nav_and_index.py\<close>, when \<^verbatim>\<open>mkdocs.yml\<close> does not
  exist (and may be created), \<^verbatim>\<open>update_mkdocs_yml\<close> starts from an empty mapping, raises
  nothing and writes the dump of a mapping whose only key is \<^verbatim>\<open>nav\<close>.
\<close>

theorem update_mkdocs_yml_missing_file:
  assumes "mkdocs_yml s = None" and "mkdocs_writable s"
  shows "update_mkdocs_yml safe_load dump nav s =
           (None, s\<lparr>mkdocs_yml := Some (dump (YMap [(''nav'', YList nav)]))\<rparr>)"
  using assms by (simp add: update_mkdocs_yml_def)

theorem update_mkdocs_yml_missing_file_witness:
  "update_mkdocs_yml Inr id [YMap [(''A'', YStr ''a.md'')]]
     \<lparr>docs = None, mkdocs_yml = None, mkdocs_writable = True, index_writable = True\<rparr> =
   (None, \<lparr>docs = None, mkdocs_yml = Some (YMap [(''nav'', YList [YMap [(''A'', YStr ''a.md'')]])]),
           mkdocs_writable = True, index_writable = True\<rparr>)"
  using update_mkdocs_yml_missing_file
    [of "\<lparr>docs = None, mkdocs_yml = None, mkdocs_writable = True, index_writable = True\<rparr>"
        Inr id "[YMap [(''A'', YStr ''a.md'')]]"]
  by simp

text \<open>
  \<^verbatim>\<open>update_nav.py\<close> opens \<^verbatim>\<open>mkdocs.yml\<close> for reading without testing that it exists:
  with the file missing, \<^verbatim>\<open>update_mkdocs_yaml\<close> raises \<^verbatim>\<open>FileNotFoundError\<close> and writes
  nothing.
\<close>

theorem update_mkdocs_yaml_missing_file_raises:
  "update_mkdocs_yaml Inr id
     \<lparr>docs = Some (Dir [(''a.md'', File [])]), mkdocs_yml = None,
      mkdocs_writable = True, index_writable = True\<rparr> =
   (Some FileNotFoundError,
     \<lparr>docs = Some (Dir [(''a.md'', File [])]), mkdocs_yml = None,
      mkdocs_writable = True, index_writable = True\<rparr>)"
  by (simp add: update_mkdocs_yaml_def)



section \<open>The orchestrator\<close>

text \<open>
  C9. \<^verbatim>\<open>main\<close> scans first, then merges and writes the configuration, then writes the
  index. If the scan raises, the state is the one \<^verbatim>\<open>main\<close> started in: neither file
  has been touched. If the configuration step raises, \<^verbatim>\<open>main\<close> stops there and the
  state is again the one it started in, so the index has not been written. Otherwise
  the result is that of writing the rendered index in the state the configuration
  step left.
\<close>

theorem main_stops_at_first_failure:
  "(\<forall>e. (case docs s of None \<Rightarrow> Inl FileNotFoundError | Some d \<Rightarrow> scan_docs d []) = Inl e
        \<longrightarrow> main safe_load dump s = (Some e, s))
 \<and> (\<forall>nav index_links e s1.
        (case docs s of None \<Rightarrow> Inl FileNotFoundError | Some d \<Rightarrow> scan_docs d [])
          = Inr (nav, index_links)
        \<and> update_mkdocs_yml safe_load dump nav s = (Some e, s1)
        \<longrightarrow> main safe_load dump s = (Some e, s) \<and> s1 = s)
 \<and> (\<forall>nav index_links s1.
        (case docs s of None \<Rightarrow> Inl FileNotFoundError | Some d \<Rightarrow> scan_docs d [])
          = Inr (nav, index_links)
        \<and> update_mkdocs_yml safe_load dump nav s = (None, s1)
        \<longrightarrow> main safe_load dump s = write_index (generate_index_md index_links 2) s1
          \<and> docs s1 = docs s)"
proof -
  have unchanged: "s1 = s" if "update_mkdocs_yml safe_load dump nav s = (Some e, s1)"
    for nav e s1
    using that
    by (auto simp: update_mkdocs_yml_def split: option.splits sum.splits if_splits)
  have docs_kept: "docs s1 = docs s" if "update_mkdocs_yml safe_load dump nav s = (None, s1)"
    for nav s1
    using that
    by (auto simp: update_mkdocs_yml_def split: option.splits sum.splits if_splits)
  show ?thesis
    using unchanged docs_kept by (auto simp: main_def)
qed

theorem main_stops_at_first_failure_witness:
  "main (\<lambda>b. Inr YNull) (\<lambda>d. ''out'')
     \<lparr>docs = None, mkdocs_yml = Some ''old'', mkdocs_writable = True, index_writable = True\<rparr>
   = (Some FileNotFoundError,
      \<lparr>docs = None, mkdocs_yml = Some ''old'', mkdocs_writable = True, index_writable = True\<rparr>)
 \<and> main (\<lambda>b. Inr YNull) (\<lambda>d. ''out'')
     \<lparr>docs = Some (Dir [(''a.md'', File [])]), mkdocs_yml = Some ''old'',
      mkdocs_writable = False, index_writable = True\<rparr>
   = (Some PermissionError,
      \<lparr>docs = Some (Dir [(''a.md'', File [])]), mkdocs_yml = Some ''old'',
       mkdocs_writable = False, index_writable = True\<rparr>)
 \<and> main (\<lambda>b. Inr YNull) (\<lambda>d. ''out'')
     \<lparr>docs = Some (Dir [(''a.md'', File [])]), mkdocs_yml = Some ''old'',
      mkdocs_writable = True, index_writable = True\<rparr>
   = write_index (generate_index_md [Entry ''A'' ''a.md''] 2)
      \<lparr>docs = Some (Dir [(''a.md'', File [])]), mkdocs_yml = Some ''out'',
       mkdocs_writable = True, index_writable = True\<rparr>"
proof -
  let ?ld = "\<lambda>b :: string. (Inr YNull :: error + yaml)"
  let ?dp = "\<lambda>d :: yaml. ''out''"
  let ?s0 = "\<lparr>docs = None, mkdocs_yml = Some ''old'', mkdocs_writable = True,
              index_writable = True\<rparr>"
  let ?s1 = "\<lparr>docs = Some (Dir [(''a.md'', File [])]), mkdocs_yml = Some ''old'',
              mkdocs_writable = False, index_writable = True\<rparr>"
  let ?s2 = "\<lparr>docs = Some (Dir [(''a.md'', File [])]), mkdocs_yml = Some ''old'',
              mkdocs_writable = True, index_writable = True\<rparr>"
  have sc: "scan_docs (Dir [(''a.md'', File [])]) [] =
              Inr ([YMap [(''A'', YStr ''a.md'')]], [Entry ''A'' ''a.md''])"
    by code_simp
  have up1: "update_mkdocs_yml ?ld ?dp [YMap [(''A'', YStr ''a.md'')]] ?s1
               = (Some PermissionError, ?s1)"
    by (simp add: update_mkdocs_yml_def)
  have up2: "update_mkdocs_yml ?ld ?dp [YMap [(''A'', YStr ''a.md'')]] ?s2
               = (None, ?s2\<lparr>mkdocs_yml := Some ''out''\<rparr>)"
    by (simp add: update_mkdocs_yml_def)
  have a: "main ?ld ?dp ?s0 = (Some FileNotFoundError, ?s0)"
    using main_stops_at_first_failure [of ?s0 ?ld ?dp] by simp
  have b: "main ?ld ?dp ?s1 = (Some PermissionError, ?s1)"
    using main_stops_at_first_failure [of ?s1 ?ld ?dp] sc up1 by simp
  have c: "main ?ld ?dp ?s2 =
             write_index (generate_index_md [Entry ''A'' ''a.md''] 2) (?s2\<lparr>mkdocs_yml := Some ''out''\<rparr>)"
    using main_stops_at_first_failure [of ?s2 ?ld ?dp] sc up2 by simp
  show ?thesis using a b c by simp
qed

section \<open>Title-casing\<close>









section \<open>The loop of \<^verbatim>\<open>scan_docs\<close>\<close>

text \<open>The loop only appends: a run from any state is a run from the empty state, appended.\<close>

lemma scan_items_acc:
  "scan_items es base (nav, idx) =
     (case scan_items es base ([], []) of
        Inl e \<Rightarrow> Inl e
      | Inr (n, i) \<Rightarrow> Inr (nav @ n, idx @ i))"
proof (induction es arbitrary: nav idx)
  case Nil
  show ?case by simp
next
  case (Cons e es)
  obtain item node where e: "e = (item, node)" by (cases e)
  have step: "scan_items es base (nav @ n1, idx @ i1) =
      (case scan_items es base (n1, i1) of
         Inl e \<Rightarrow> Inl e
       | Inr (n, i) \<Rightarrow> Inr (nav @ n, idx @ i))" for n1 i1
    using Cons.IH [of "nav @ n1" "idx @ i1"] Cons.IH [of n1 i1]
    by (simp split: sum.splits)
  show ?case
    using step [of "[]" "[]"] step
    by (simp add: e Let_def split: sum.splits prod.splits)
qed

text \<open>One entry, then the rest.\<close>

lemma scan_items_Cons:
  "scan_items (e # es) base ([], []) =
     (case scan_items [e] base ([], []) of
        Inl err \<Rightarrow> Inl err
      | Inr (n1, i1) \<Rightarrow>
          (case scan_items es base ([], []) of
             Inl err \<Rightarrow> Inl err
           | Inr (n2, i2) \<Rightarrow> Inr (n1 @ n2, i1 @ i2)))"
proof -
  obtain item node where e: "e = (item, node)" by (cases e)
  have acc: "scan_items es base (n1, i1) =
      (case scan_items es base ([], []) of
         Inl e \<Rightarrow> Inl e
       | Inr (n, i) \<Rightarrow> Inr (n1 @ n, i1 @ i))" for n1 i1
    by (rule scan_items_acc)
  show ?thesis
    by (simp add: e Let_def acc [of "[_]" "[_]"] split: sum.splits prod.splits)
qed

lemma scan_items_passed_over:
  "passed_over e \<Longrightarrow> scan_items (e # es) base acc = scan_items es base acc"
  by (cases e; cases acc) (auto simp: passed_over_def hidden_def Let_def)

lemma scan_items_filter:
  "\<forall>e \<in> set es. \<not> P e \<longrightarrow> passed_over e \<Longrightarrow>
   scan_items (filter P es) base ([], []) = scan_items es base ([], [])"
proof (induction es)
  case Nil
  show ?case by simp
next
  case (Cons e es)
  then have IH: "scan_items (filter P es) base ([], []) = scan_items es base ([], [])"
    by simp
  show ?case
  proof (cases "P e")
    case True
    have "scan_items (e # filter P es) base ([], []) = scan_items (e # es) base ([], [])"
      by (simp only: scan_items_Cons [of e "filter P es" base] scan_items_Cons [of e es base] IH)
    with True show ?thesis by simp
  next
    case False
    with Cons.prems have "passed_over e" by simp
    with False IH show ?thesis
      by (simp add: scan_items_passed_over)
  qed
qed


section \<open>Sorting the listing\<close>

lemma insort_key_map:
  "k (g x) = k' x \<Longrightarrow> \<forall>y \<in> set xs. k (g y) = k' y \<Longrightarrow>
   insort_key k (g x) (map g xs) = map g (insort_key k' x xs)"
  by (induction xs) auto

lemma sort_key_map:
  "\<forall>y \<in> set xs. k (g y) = k' y \<Longrightarrow> sort_key k (map g xs) = map g (sort_key k' xs)"
  by (induction xs) (auto simp: insort_key_map)

section \<open>Hidden entries\<close>

lemma isdir_remove_hidden: "isdir (remove_hidden node) = isdir node"
  by (cases node) auto

lemma scan_items_remove_hidden:
  assumes "\<And>item node base. (item, node) \<in> set es \<Longrightarrow>
             scan_docs (remove_hidden node) base = scan_docs node base"
  shows "scan_items (map (\<lambda>(name, node). (name, remove_hidden node))
                      (filter (\<lambda>(name, node). \<not> hidden name) es)) base ([], [])
         = scan_items es base ([], [])"
  using assms
proof (induction es)
  case Nil
  show ?case by simp
next
  case (Cons e es)
  obtain item node where e: "e = (item, node)" by (cases e)
  let ?g = "\<lambda>(name, node). (name, remove_hidden node)"
  let ?V = "\<lambda>(name, node). \<not> hidden name"
  have IH: "scan_items (map ?g (filter ?V es)) base ([], []) = scan_items es base ([], [])"
  proof (rule Cons.IH)
    fix i n b
    assume "(i, n) \<in> set es"
    then show "scan_docs (remove_hidden n) b = scan_docs n b"
      using Cons.prems [of i n b] by simp
  qed
  show ?case
  proof (cases "hidden item")
    case True
    have po: "scan_items ((item, node) # es) base ([], []) = scan_items es base ([], [])"
      by (rule scan_items_passed_over) (simp add: passed_over_def True)
    show ?thesis
      using True IH po by (simp add: e del: scan_items.simps)
  next
    case False
    have sub: "scan_docs (remove_hidden node) b = scan_docs node b" for b
      using Cons.prems [of item node b] by (simp add: e)
    have one: "scan_items [(item, remove_hidden node)] base ([], [])
                 = scan_items [(item, node)] base ([], [])"
      by (simp add: isdir_remove_hidden sub Let_def)
    have "scan_items ((item, remove_hidden node) # map ?g (filter ?V es)) base ([], [])
            = scan_items ((item, node) # es) base ([], [])"
      by (simp only: scan_items_Cons [of _ "map ?g (filter ?V es)" base]
            scan_items_Cons [of _ es base] IH one)
    with False show ?thesis by (simp add: e)
  qed
qed

lemma scan_docs_remove_hidden:
  "scan_docs (remove_hidden node) base = scan_docs node base"
proof (induction node arbitrary: base)
  case (File content)
  show ?case by simp
next
  case NoAccess
  show ?case by simp
next
  case (Dir es)
  let ?g = "\<lambda>(name, node). (name, remove_hidden node)"
  let ?V = "\<lambda>(name, node). \<not> hidden name"
  have sub: "scan_docs (remove_hidden node) b = scan_docs node b"
    if "(item, node) \<in> set (sort_key fst es)" for item node b
    using that Dir.IH [of "(item, node)" node b] by simp
  have "sort_key fst (map ?g (filter ?V es)) = map ?g (sort_key fst (filter ?V es))"
    by (rule sort_key_map) auto
  also have "\<dots> = map ?g (filter ?V (sort_key fst es))"
    by (simp add: filter_sort)
  finally have "scan_docs (remove_hidden (Dir es)) base
      = scan_items (map ?g (filter ?V (sort_key fst es))) base ([], [])"
    by simp
  also have "\<dots> = scan_items (sort_key fst es) base ([], [])"
    using sub by (rule scan_items_remove_hidden)
  finally show ?case by simp
qed

lemma scan_docs_drop_passed_over:
  "scan_docs (Dir es) base = scan_docs (Dir (filter (\<lambda>e. \<not> passed_over e) es)) base"
proof -
  let ?P = "\<lambda>e. \<not> passed_over e"
  have "scan_items (sort_key fst es) base ([], [])
          = scan_items (filter ?P (sort_key fst es)) base ([], [])"
    by (rule scan_items_filter [symmetric]) simp
  then show ?thesis
    by (simp add: filter_sort)
qed

text \<open>
  C1, as the code has it. In \<^verbatim>\<open>generate_nav_and_index.py\<close>, an entry whose name starts
  with \<^verbatim>\<open>.\<close> or \<^verbatim>\<open>_\<close> contributes nothing to the navigation or to the index links,
  whatever it is; the scan of a directory is the scan of the directory without that
  entry; and this holds at every depth: the scan of a tree is the scan of the tree
  with all such entries removed.
\<close>

theorem scan_docs_skips_hidden:
  "(hidden item \<longrightarrow>
      scan_docs (Dir [(item, node)]) base = Inr ([], [])
    \<and> scan_docs (Dir ((item, node) # entries)) base = scan_docs (Dir entries) base)
 \<and> scan_docs tree base = scan_docs (remove_hidden tree) base"
proof -
  have "scan_docs (Dir ((item, node) # entries)) base = scan_docs (Dir entries) base"
    if h: "hidden item"
  proof -
    have p: "passed_over (item, node)"
      using h by (simp add: passed_over_def)
    have "filter (\<lambda>e. \<not> passed_over e) ((item, node) # entries)
            = filter (\<lambda>e. \<not> passed_over e) entries"
      using p by simp
    then show ?thesis
      using scan_docs_drop_passed_over [of "(item, node) # entries" base]
            scan_docs_drop_passed_over [of entries base]
      by simp
  qed
  moreover have "scan_docs (Dir [(item, node)]) base = Inr ([], [])" if "hidden item"
    using that by (simp add: hidden_def Let_def)
  ultimately show ?thesis
    by (simp add: scan_docs_remove_hidden)
qed

theorem scan_docs_skips_hidden_witness:
  "scan_docs (Dir [(''_draft.md'', File [])]) ''guide'' = Inr ([], [])
 \<and> scan_docs (Dir [(''.hidden'', Dir [(''note.md'', File [])]), (''intro.md'', File [])]) []
     = scan_docs (Dir [(''intro.md'', File [])]) []
 \<and> scan_docs (Dir [(''guide'', Dir [(''intro.md'', File []), (''_draft.md'', File [])])]) []
     = scan_docs (Dir [(''guide'', Dir [(''intro.md'', File [])])]) []"
proof -
  have h1: "hidden ''_draft.md''" by code_simp
  have h2: "hidden ''.hidden''" by code_simp
  have r: "remove_hidden (Dir [(''guide'', Dir [(''intro.md'', File []), (''_draft.md'', File [])])])
             = Dir [(''guide'', Dir [(''intro.md'', File [])])]"
    by code_simp
  have a: "scan_docs (Dir [(''_draft.md'', File [])]) ''guide'' = Inr ([], [])"
    using scan_docs_skips_hidden [of "''_draft.md''" "File []" "''guide''"] h1 by blast
  have b: "scan_docs (Dir [(''.hidden'', Dir [(''note.md'', File [])]), (''intro.md'', File [])]) []
             = scan_docs (Dir [(''intro.md'', File [])]) []"
    using scan_docs_skips_hidden
            [of "''.hidden''" "Dir [(''note.md'', File [])]" "[]" "[(''intro.md'', File [])]"] h2
    by blast
  have c: "scan_docs (Dir [(''guide'', Dir [(''intro.md'', File []), (''_draft.md'', File [])])]) []
             = scan_docs (Dir [(''guide'', Dir [(''intro.md'', File [])])]) []"
    using scan_docs_skips_hidden
            [of _ _ "[]" _ "Dir [(''guide'', Dir [(''intro.md'', File []), (''_draft.md'', File [])])]"]
          r
    by simp
  show ?thesis using a b c by blast
qed

text \<open>
  \<^verbatim>\<open>update_nav.py\<close> has no such test: \<^verbatim>\<open>build_nav\<close> lists a file whose name starts with
  \<^verbatim>\<open>_\<close> and descends into a directory whose name starts with \<^verbatim>\<open>.\<close>.
\<close>

theorem build_nav_lists_hidden:
  "build_nav (Dir [(''_draft.md'', File []), (''.hidden'', Dir [(''note.md'', File [])])]) DOCS_DIR
     = Inr [YMap [(''.Hidden'', YList [YMap [(''Note'', YStr ''.hidden/note.md'')]])],
            YMap [('' Draft'', YStr ''_draft.md'')]]"
  by code_simp

section \<open>Files and the index file\<close>

lemma replace_same: "replace c [c] s = s"
  by (induction s) (auto simp: replace_def)

lemma lower_index_md: "lower ''index.md'' = ''index.md''"
  by code_simp

lemma index_md_passed_over: "passed_over (''index.md'', File content)"
  by (simp add: passed_over_def lower_index_md)

lemma filter_dict_set_index_md:
  "map_of es ''index.md'' = None \<or> (\<exists>c. map_of es ''index.md'' = Some (File c)) \<Longrightarrow>
   filter (\<lambda>e. \<not> passed_over e) (dict_set ''index.md'' (File content) es)
     = filter (\<lambda>e. \<not> passed_over e) es"
proof (induction es)
  case Nil
  show ?case by (simp add: index_md_passed_over)
next
  case (Cons e es)
  obtain k v where e: "e = (k, v)" by (cases e)
  show ?case
  proof (cases "k = ''index.md''")
    case True
    with Cons.prems e obtain c where "v = File c" by auto
    with True e show ?thesis
      by (simp add: index_md_passed_over)
  next
    case False
    with Cons e show ?thesis by simp
  qed
qed

text \<open>Writing \<^verbatim>\<open>docs/index.md\<close> does not change what the scan of \<^verbatim>\<open>docs\<close> returns.\<close>

lemma scan_docs_ignores_index_md:
  assumes "map_of es ''index.md'' = None \<or> (\<exists>c. map_of es ''index.md'' = Some (File c))"
  shows "scan_docs (Dir (dict_set ''index.md'' (File content) es)) base = scan_docs (Dir es) base"
  using scan_docs_drop_passed_over [of "dict_set ''index.md'' (File content) es" base]
        scan_docs_drop_passed_over [of es base]
        filter_dict_set_index_md [OF assms, of content]
  by simp

text \<open>
  C3, as the code has it. In \<^verbatim>\<open>generate_nav_and_index.py\<close>, a file whose name does not
  start with \<^verbatim>\<open>.\<close> or \<^verbatim>\<open>_\<close> is listed (one leaf in the navigation, one entry in the
  index links, titled by its name without the extension, at its path under the root)
  if and only if its name ends in \<^verbatim>\<open>.md\<close> and its lower-cased name is not
  \<^verbatim>\<open>index.md\<close>; any other file adds nothing, and the scan is the scan without it.
  In particular the scan of \<^verbatim>\<open>docs\<close> after \<^verbatim>\<open>docs/index.md\<close> has been written is the scan
  before it was written.
\<close>

theorem scan_docs_lists_documents_only:
  "scan_docs (Dir [(item, File content)]) base =
     Inr (if \<not> hidden item \<and> endswith item ''.md'' \<and> lower item \<noteq> ''index.md''
          then ([YMap [(format_title (fst (splitext item)), YStr (path_join base item))]],
                [Entry (format_title (fst (splitext item))) (path_join base item)])
          else ([], []))
 \<and> (\<not> (\<not> hidden item \<and> endswith item ''.md'' \<and> lower item \<noteq> ''index.md'') \<longrightarrow>
      scan_docs (Dir ((item, File content) # entries)) base = scan_docs (Dir entries) base)
 \<and> (map_of entries ''index.md'' = None \<or> (\<exists>c. map_of entries ''index.md'' = Some (File c)) \<longrightarrow>
      scan_docs (Dir (dict_set ''index.md'' (File index_content) entries)) base
        = scan_docs (Dir entries) base)"
proof -
  have one: "scan_docs (Dir [(item, File content)]) base =
     Inr (if \<not> hidden item \<and> endswith item ''.md'' \<and> lower item \<noteq> ''index.md''
          then ([YMap [(format_title (fst (splitext item)), YStr (path_join base item))]],
                [Entry (format_title (fst (splitext item))) (path_join base item)])
          else ([], []))"
    by (simp add: hidden_def Let_def os_sep_def replace_same)
  have drop: "scan_docs (Dir ((item, File content) # entries)) base = scan_docs (Dir entries) base"
    if "\<not> (\<not> hidden item \<and> endswith item ''.md'' \<and> lower item \<noteq> ''index.md'')"
  proof -
    have "passed_over (item, File content)"
      using that by (auto simp: passed_over_def)
    then have "filter (\<lambda>e. \<not> passed_over e) ((item, File content) # entries)
                 = filter (\<lambda>e. \<not> passed_over e) entries"
      by simp
    then show ?thesis
      using scan_docs_drop_passed_over [of "(item, File content) # entries" base]
            scan_docs_drop_passed_over [of entries base]
      by simp
  qed
  show ?thesis
    using one drop scan_docs_ignores_index_md [of entries index_content base]
    by blast
qed

theorem scan_docs_lists_documents_only_witness:
  "scan_docs (Dir [(''getting_started.md'', File [])]) ''guide''
     = Inr ([YMap [(''Getting Started'', YStr ''guide/getting_started.md'')]],
            [Entry ''Getting Started'' ''guide/getting_started.md''])
 \<and> scan_docs (Dir [(''INDEX.md'', File []), (''a.md'', File [])]) []
     = scan_docs (Dir [(''a.md'', File [])]) []
 \<and> scan_docs (Dir [(''a.md'', File []), (''index.md'', File ''# Documentation Index'')]) []
     = scan_docs (Dir [(''a.md'', File [])]) []"
proof -
  have c1: "\<not> hidden ''getting_started.md'' \<and> endswith ''getting_started.md'' ''.md''
            \<and> lower ''getting_started.md'' \<noteq> ''index.md''"
    by code_simp
  have v1: "format_title (fst (splitext ''getting_started.md'')) = ''Getting Started''"
    by code_simp
  have v2: "path_join ''guide'' ''getting_started.md'' = ''guide/getting_started.md''"
    by code_simp
  have c2: "\<not> (\<not> hidden ''INDEX.md'' \<and> endswith ''INDEX.md'' ''.md''
               \<and> lower ''INDEX.md'' \<noteq> ''index.md'')"
    by code_simp
  have c3: "map_of [(''a.md'', File [])] ''index.md'' = None"
    by simp
  have d3: "dict_set ''index.md'' (File ''# Documentation Index'') [(''a.md'', File [])]
              = [(''a.md'', File []), (''index.md'', File ''# Documentation Index'')]"
    by simp
  have a: "scan_docs (Dir [(''getting_started.md'', File [])]) ''guide''
     = Inr ([YMap [(''Getting Started'', YStr ''guide/getting_started.md'')]],
            [Entry ''Getting Started'' ''guide/getting_started.md''])"
    using scan_docs_lists_documents_only [of "''getting_started.md''" "[]" "''guide''"] c1 v1 v2
    by simp
  have b: "scan_docs (Dir [(''INDEX.md'', File []), (''a.md'', File [])]) []
     = scan_docs (Dir [(''a.md'', File [])]) []"
    using scan_docs_lists_documents_only [of "''INDEX.md''" "[]" "[]" "[(''a.md'', File [])]"] c2
    by blast
  have c: "scan_docs (Dir [(''a.md'', File []), (''index.md'', File ''# Documentation Index'')]) []
     = scan_docs (Dir [(''a.md'', File [])]) []"
    using scan_docs_lists_documents_only
            [of _ _ "[]" "[(''a.md'', File [])]" "''# Documentation Index''"] c3 d3
    by simp
  show ?thesis using a b c by blast
qed

text \<open>
  \<^verbatim>\<open>update_nav.py\<close> lists every file whose name ends in \<^verbatim>\<open>.md\<close>; \<^verbatim>\<open>index.md\<close> is one
  of them.
\<close>

theorem build_nav_lists_index_md:
  "build_nav (Dir [(''index.md'', File [])]) DOCS_DIR = Inr [YMap [(''Index'', YStr ''index.md'')]]"
  by code_simp

section \<open>Empty directories\<close>

lemma build_nav_nonempty_groups_aux:
  "(build_nav node path = Inr nav \<longrightarrow> list_all nonempty_groups nav)"
  "(list_all nonempty_groups acc \<longrightarrow> build_items es path' acc = Inr nav' \<longrightarrow>
      list_all nonempty_groups nav')"
proof (induction node path and es path' acc arbitrary: nav and nav'
        rule: build_nav_build_items.induct)
  case (1 entries path)
  then show ?case by simp
next
  case (2 path)
  then show ?case by simp
next
  case (3 content path)
  then show ?case by simp
next
  case (4 path nav)
  then show ?case by auto
next
  case (5 entry node rest path nav)
  show ?case
  proof (cases "isdir node")
    case True
    show ?thesis
    proof (cases "build_nav node (path_join path entry)")
      case (Inl e)
      with True show ?thesis by (simp add: Let_def)
    next
      case (Inr children)
      show ?thesis
      proof (cases "children = []")
        case c: True
        with True Inr 5(3) [of "path_join path entry" "relpath (path_join path entry) DOCS_DIR" children nav']
        show ?thesis by (simp add: Let_def)
      next
        case c: False
        have ch: "list_all nonempty_groups children"
          using 5(1) [of "path_join path entry" "relpath (path_join path entry) DOCS_DIR" children] True Inr
          by simp
        with c True Inr 5(2) [of "path_join path entry" "relpath (path_join path entry) DOCS_DIR" children nav']
        show ?thesis by (simp add: Let_def)
      qed
    qed
  next
    case False
    with 5(4,5) [of "path_join path entry" "relpath (path_join path entry) DOCS_DIR" nav']
    show ?thesis by (simp add: Let_def)
  qed
qed

text \<open>
  C2, as the code has it. In \<^verbatim>\<open>update_nav.py\<close>, the navigation \<^verbatim>\<open>build_nav\<close> returns has
  no group without children, at any depth: a directory whose own \<^verbatim>\<open>build_nav\<close> result is
  empty gets no node, and the result is the one without that directory.
\<close>

theorem build_nav_omits_empty_directories:
  "(build_nav tree path = Inr nav \<longrightarrow> list_all nonempty_groups nav)
 \<and> (isdir node \<and> build_nav node (path_join path entry) = Inr [] \<longrightarrow>
      build_items ((entry, node) # rest) path acc = build_items rest path acc)"
  using build_nav_nonempty_groups_aux(1) [of tree path nav]
  by (simp add: Let_def)

theorem build_nav_omits_empty_directories_witness:
  "list_all nonempty_groups [YMap [(''Guide'', YList [YMap [(''Intro'', YStr ''guide/intro.md'')]])]]
 \<and> build_items [(''empty'', Dir [(''notes.txt'', File [])])] ''docs'' [] = build_items [] ''docs'' []"
proof -
  have b: "build_nav (Dir [(''empty'', Dir [(''sub'', Dir [])]), (''guide'', Dir [(''intro.md'', File [])])])
             ''docs'' = Inr [YMap [(''Guide'', YList [YMap [(''Intro'', YStr ''guide/intro.md'')]])]]"
    by code_simp
  have e: "isdir (Dir [(''notes.txt'', File [])])
         \<and> build_nav (Dir [(''notes.txt'', File [])]) (path_join ''docs'' ''empty'') = Inr []"
    by code_simp
  have a1: "list_all nonempty_groups
              [YMap [(''Guide'', YList [YMap [(''Intro'', YStr ''guide/intro.md'')]])]]"
    using build_nav_omits_empty_directories
            [of "Dir [(''empty'', Dir [(''sub'', Dir [])]), (''guide'', Dir [(''intro.md'', File [])])]"
                "''docs''" "[YMap [(''Guide'', YList [YMap [(''Intro'', YStr ''guide/intro.md'')]])]]"] b
    by blast
  have a2: "build_items [(''empty'', Dir [(''notes.txt'', File [])])] ''docs'' []
              = build_items [] ''docs'' []"
    using build_nav_omits_empty_directories
            [of _ "''docs''" _ "Dir [(''notes.txt'', File [])]" "''empty''" "[]" "[]"] e
    by blast
  show ?thesis using a1 a2 by blast
qed

text \<open>
  \<^verbatim>\<open>generate_nav_and_index.py\<close> appends the group and the section of a directory
  whatever its scan returned: an empty directory gets a group and a section without
  children, and the index gets its heading.
\<close>

theorem scan_docs_keeps_empty_directory:
  "scan_docs (Dir [(''empty'', Dir [])]) [] =
     Inr ([YMap [(''Empty'', YList [])]], [Section ''Empty'' []])
 \<and> \<not> list_all nonempty_groups [YMap [(''Empty'', YList [])]]"
  by code_simp

section \<open>Order\<close>










section \<open>Running twice\<close>

lemma dict_set_not_Nil: "dict_set k v kvs \<noteq> []"
  by (cases kvs) (auto split: if_splits)

lemma setitem_Inr: "setitem config k v = Inr c \<Longrightarrow> \<exists>kvs. c = YMap (dict_set k v kvs)"
  by (cases config) auto

lemma setitem_again: "setitem (YMap (dict_set k v kvs)) k v = Inr (YMap (dict_set k v kvs))"
  by (simp add: dict_set_idem)

lemma update_mkdocs_yml_cases:
  assumes "update_mkdocs_yml safe_load dump nav s = (r, s1)"
  shows "(r \<noteq> None \<and> s1 = s) \<or>
         (r = None \<and> mkdocs_writable s \<and>
          (\<exists>kvs. s1 = s\<lparr>mkdocs_yml := Some (dump (YMap (dict_set ''nav'' (YList nav) kvs)))\<rparr>))"
  using assms
  by (auto simp: update_mkdocs_yml_def simp del: setitem.simps dict_set.simps
           split: option.splits sum.splits if_splits dest!: setitem_Inr)

lemma update_mkdocs_yml_again:
  assumes "\<And>d. safe_load (dump d) = Inr d"
    and "mkdocs_yml t = Some (dump (YMap (dict_set ''nav'' (YList nav) kvs)))"
    and "mkdocs_writable t"
  shows "update_mkdocs_yml safe_load dump nav t = (None, t)"
proof -
  have "t\<lparr>mkdocs_yml := Some (dump (YMap (dict_set ''nav'' (YList nav) kvs)))\<rparr> = t"
    using assms(2) by simp
  then show ?thesis
    using assms by (simp add: update_mkdocs_yml_def dict_set_not_Nil dict_set_idem)
qed

lemma write_index_cases:
  assumes "write_index c s = (r, s2)" and "docs s = Some (Dir es)"
  shows "(r \<noteq> None \<and> s2 = s) \<or>
         (r = None \<and> index_writable s
          \<and> (map_of es ''index.md'' = None \<or> (\<exists>c'. map_of es ''index.md'' = Some (File c')))
          \<and> s2 = s\<lparr>docs := Some (Dir (dict_set ''index.md'' (File c) es))\<rparr>)"
  using assms
  by (auto simp: write_index_def split: option.splits fsnode.splits if_splits)

lemma write_index_again:
  assumes "docs t = Some (Dir (dict_set ''index.md'' (File c) es))" and "index_writable t"
  shows "write_index c t = (None, t)"
proof -
  have "t\<lparr>docs := Some (Dir (dict_set ''index.md'' (File c) es))\<rparr> = t"
    using assms(1) by simp
  then show ?thesis
    using assms by (simp add: write_index_def map_of_dict_set_same dict_set_idem)
qed

lemma scan_docs_Inr_Dir: "scan_docs d base = Inr r \<Longrightarrow> \<exists>es. d = Dir es"
  by (cases d) auto

lemma main_twice:
  assumes rt: "\<And>d. safe_load (dump d) = Inr d"
  shows "main safe_load dump (snd (main safe_load dump s)) = main safe_load dump s"
proof (cases "case docs s of None \<Rightarrow> Inl FileNotFoundError | Some d \<Rightarrow> scan_docs d []")
  case (Inl e)
  then have "main safe_load dump s = (Some e, s)"
    by (simp add: main_def)
  then show ?thesis by simp
next
  case (Inr p)
  obtain nav idx where p: "p = (nav, idx)" by (cases p)
  from Inr obtain d0 where d0: "docs s = Some d0" "scan_docs d0 [] = Inr (nav, idx)"
    by (auto simp: p split: option.splits)
  then obtain es where "d0 = Dir es"
    using scan_docs_Inr_Dir by blast
  with d0 have d: "docs s = Some (Dir es)" and sc: "scan_docs (Dir es) [] = Inr (nav, idx)"
    by simp_all
  let ?c = "generate_index_md idx 2"
  obtain r s1 where u: "update_mkdocs_yml safe_load dump nav s = (r, s1)"
    by (cases "update_mkdocs_yml safe_load dump nav s")
  from update_mkdocs_yml_cases [OF u] show ?thesis
  proof
    assume "r \<noteq> None \<and> s1 = s"
    then obtain e where "r = Some e" "s1 = s" by auto
    with u d sc have "main safe_load dump s = (Some e, s)"
      by (simp add: main_def)
    then show ?thesis by simp
  next
    assume ok: "r = None \<and> mkdocs_writable s \<and>
      (\<exists>kvs. s1 = s\<lparr>mkdocs_yml := Some (dump (YMap (dict_set ''nav'' (YList nav) kvs)))\<rparr>)"
    then obtain kvs where
      s1: "s1 = s\<lparr>mkdocs_yml := Some (dump (YMap (dict_set ''nav'' (YList nav) kvs)))\<rparr>"
      and w: "mkdocs_writable s" and r: "r = None"
      by blast
    have m1: "main safe_load dump s = write_index ?c s1"
      using u d sc r by (simp add: main_def)
    have d1: "docs s1 = Some (Dir es)"
      using d s1 by simp
    have y1: "mkdocs_yml s1 = Some (dump (YMap (dict_set ''nav'' (YList nav) kvs)))"
      using s1 by simp
    have w1: "mkdocs_writable s1"
      using w s1 by simp
    have u1: "update_mkdocs_yml safe_load dump nav s1 = (None, s1)"
      using rt y1 w1 by (rule update_mkdocs_yml_again)
    obtain r2 s2 where wi: "write_index ?c s1 = (r2, s2)"
      by (cases "write_index ?c s1")
    from write_index_cases [OF wi d1] show ?thesis
    proof
      assume "r2 \<noteq> None \<and> s2 = s1"
      then have s2: "s2 = s1" by simp
      have "main safe_load dump s1 = write_index ?c s1"
        using u1 d1 sc by (simp add: main_def)
      with m1 wi s2 show ?thesis by simp
    next
      assume ok2: "r2 = None \<and> index_writable s1
          \<and> (map_of es ''index.md'' = None \<or> (\<exists>c'. map_of es ''index.md'' = Some (File c')))
          \<and> s2 = s1\<lparr>docs := Some (Dir (dict_set ''index.md'' (File ?c) es))\<rparr>"
      then have s2: "s2 = s1\<lparr>docs := Some (Dir (dict_set ''index.md'' (File ?c) es))\<rparr>"
        and iw: "index_writable s1" and r2: "r2 = None"
        and nd: "map_of es ''index.md'' = None \<or> (\<exists>c'. map_of es ''index.md'' = Some (File c'))"
        by blast+
      have d2: "docs s2 = Some (Dir (dict_set ''index.md'' (File ?c) es))"
        using s2 by simp
      have sc2: "scan_docs (Dir (dict_set ''index.md'' (File ?c) es)) [] = Inr (nav, idx)"
        using scan_docs_ignores_index_md [OF nd, of ?c "[]"] sc by simp
      have y2: "mkdocs_yml s2 = Some (dump (YMap (dict_set ''nav'' (YList nav) kvs)))"
        using y1 s2 by simp
      have w2: "mkdocs_writable s2"
        using w1 s2 by simp
      have u2: "update_mkdocs_yml safe_load dump nav s2 = (None, s2)"
        using rt y2 w2 by (rule update_mkdocs_yml_again)
      have iw2: "index_writable s2"
        using iw s2 by simp
      have "main safe_load dump s2 = write_index ?c s2"
        using u2 d2 sc2 by (simp add: main_def)
      also have "\<dots> = (None, s2)"
        using d2 iw2 by (rule write_index_again)
      finally show ?thesis
        using m1 wi r2 by simp
    qed
  qed
qed

lemma update_mkdocs_yaml_twice:
  assumes rt: "\<And>d. safe_load (dump d) = Inr d"
  shows "update_mkdocs_yaml safe_load dump (snd (update_mkdocs_yaml safe_load dump s))
           = update_mkdocs_yaml safe_load dump s"
proof (cases "\<exists>e. update_mkdocs_yaml safe_load dump s = (Some e, s)")
  case True
  then show ?thesis by auto
next
  case False
  then obtain bytes config d nav c' where
    y: "mkdocs_yml s = Some bytes" and l: "safe_load bytes = Inr config" and
    dd: "docs s = Some d" and b: "build_nav d DOCS_DIR = Inr nav" and
    si: "setitem config ''nav'' (YList nav) = Inr c'" and w: "mkdocs_writable s"
    by (auto simp: update_mkdocs_yaml_def split: option.splits sum.splits if_splits)
  from si obtain kvs where c': "c' = YMap (dict_set ''nav'' (YList nav) kvs)"
    using setitem_Inr by blast
  let ?s1 = "s\<lparr>mkdocs_yml := Some (dump c')\<rparr>"
  have one: "update_mkdocs_yaml safe_load dump s = (None, ?s1)"
    using y l dd b si w by (simp add: update_mkdocs_yaml_def)
  have "update_mkdocs_yaml safe_load dump ?s1 = (None, ?s1)"
    using rt dd b w by (simp add: update_mkdocs_yaml_def c' dict_set_idem)
  with one show ?thesis by simp
qed

text \<open>
  C4. With a YAML printer and parser that round-trip (loading a dump gives the
  document back), a second run of either script in the state the first run left,
  written outputs included, ends as the first did and leaves that state as it is:
  \<^verbatim>\<open>mkdocs.yml\<close> holds the same bytes and \<^verbatim>\<open>docs/index.md\<close> the same text.
\<close>

theorem generation_is_idempotent:
  assumes "\<And>d. safe_load (dump d) = Inr d"
  shows "main safe_load dump (snd (main safe_load dump s)) = main safe_load dump s
       \<and> update_mkdocs_yaml safe_load dump (snd (update_mkdocs_yaml safe_load dump s))
           = update_mkdocs_yaml safe_load dump s"
  using main_twice [of safe_load dump s] update_mkdocs_yaml_twice [of safe_load dump s] assms
  by blast

theorem generation_is_idempotent_witness:
  "main Inr id
     \<lparr>docs = Some (Dir [(''index.md'',
                          File (''# Documentation Index'' @ [nl, nl] @ ''- [A](a.md)'')),
                        (''a.md'', File [])]),
      mkdocs_yml = Some (YMap [(''site_name'', YStr ''X''),
                               (''nav'', YList [YMap [(''A'', YStr ''a.md'')]])]),
      mkdocs_writable = True, index_writable = True\<rparr>
   = (None,
     \<lparr>docs = Some (Dir [(''index.md'',
                          File (''# Documentation Index'' @ [nl, nl] @ ''- [A](a.md)'')),
                        (''a.md'', File [])]),
      mkdocs_yml = Some (YMap [(''site_name'', YStr ''X''),
                               (''nav'', YList [YMap [(''A'', YStr ''a.md'')]])]),
      mkdocs_writable = True, index_writable = True\<rparr>)"
proof -
  let ?s = "\<lparr>docs = Some (Dir [(''index.md'', File ''old''), (''a.md'', File [])]),
             mkdocs_yml = Some (YMap [(''site_name'', YStr ''X'')]),
             mkdocs_writable = True, index_writable = True\<rparr>"
  have sc: "scan_docs (Dir [(''index.md'', File ''old''), (''a.md'', File [])]) []
              = Inr ([YMap [(''A'', YStr ''a.md'')]], [Entry ''A'' ''a.md''])"
    by code_simp
  have g: "generate_index_md [Entry ''A'' ''a.md''] 2
             = ''# Documentation Index'' @ [nl, nl] @ ''- [A](a.md)''"
    by (simp add: generate_index_md_def)
  have first: "main Inr id ?s
   = (None,
     \<lparr>docs = Some (Dir [(''index.md'',
                          File (''# Documentation Index'' @ [nl, nl] @ ''- [A](a.md)'')),
                        (''a.md'', File [])]),
      mkdocs_yml = Some (YMap [(''site_name'', YStr ''X''),
                               (''nav'', YList [YMap [(''A'', YStr ''a.md'')]])]),
      mkdocs_writable = True, index_writable = True\<rparr>)"
    by (simp add: main_def sc g update_mkdocs_yml_def write_index_def del: scan_docs.simps)
  have rt: "\<And>d :: yaml. Inr (id d) = (Inr d :: error + yaml)"
    by simp
  from generation_is_idempotent [of Inr id ?s, OF rt] first show ?thesis
    by simp
qed

end
